theory Spec2Isabelle
  imports Main
begin

section \<open>Shielded transaction summary chart: data model\<close>

text \<open>
  The component \<^verbatim>\<open>TransactionsSummaryChart\<close> loads a JSON array of per-height samples and
  turns it into the series of a chart. JavaScript numbers are doubles; they are modelled
  as \<^typ>\<open>int\<close>: the data are block heights and transaction counts, and on integers the
  arithmetic of the source (\<^verbatim>\<open>+=\<close>, \<^verbatim>\<open>-\<close>, \<^verbatim>\<open>%\<close>, \<^verbatim>\<open>>\<close>, \<^verbatim>\<open>>=\<close>) is exact as long as the
  values stay below \<open>2 ^ 53\<close> in magnitude. Beyond that bound, and on fractional deltas,
  the additions of the source round, and a property that needs exact sums carries the
  bound as a hypothesis (\<open>safeTotals\<close> below). A field that the source sets to
  \<^verbatim>\<open>null\<close> is an \<^typ>\<open>int option\<close>.
\<close>

definition BLOCKS_PERIOD :: int where
  "BLOCKS_PERIOD = 8064"

definition ORCHARD_ACTIVATION :: int where
  "ORCHARD_ACTIVATION = 1687104"

text \<open>The literal \<^verbatim>\<open>32256\<close> of the periodic branch has no name in the source.\<close>

definition MONTH_PERIOD :: int where
  "MONTH_PERIOD = 32256"

text \<open>
  The remainder operator \<^verbatim>\<open>%\<close> of JavaScript takes the sign of the dividend. (For a zero
  divisor JavaScript gives NaN; the source only divides by the two nonzero constants.)
\<close>

definition js_rem :: "int \<Rightarrow> int \<Rightarrow> int" where
  "js_rem a b = sgn a * (\<bar>a\<bar> mod \<bar>b\<bar>)"

text \<open>The type \<^verbatim>\<open>ShieldedTransactionDatum\<close> of the loaded samples.\<close>

record ShieldedTransactionDatum =
  height :: int
  sapling :: int
  sapling_filter :: int
  orchard :: int
  orchard_filter :: int

text \<open>
  The objects built by the aggregation are cast to the same type in the source, but
  their two orchard fields may be \<^verbatim>\<open>null\<close>; they get a record of their own.
\<close>

record ChartPoint =
  p_height :: int
  p_sapling :: int
  p_sapling_filter :: int
  p_orchard :: "int option"
  p_orchard_filter :: "int option"

text \<open>The four accumulators \<^verbatim>\<open>saplingSum\<close>, ... of the render effect.\<close>

record Sums =
  saplingSum :: int
  saplingFilterSum :: int
  orchardSum :: int
  orchardFilterSum :: int

definition zeroSums :: Sums where
  "zeroSums = \<lparr>saplingSum = 0, saplingFilterSum = 0, orchardSum = 0, orchardFilterSum = 0\<rparr>"

section \<open>The aggregation of the render effect\<close>

text \<open>The four \<^verbatim>\<open>+=\<close> statements that open both loop bodies.\<close>

definition addDatum :: "Sums \<Rightarrow> ShieldedTransactionDatum \<Rightarrow> Sums" where
  "addDatum s d =
     \<lparr>saplingSum = saplingSum s + sapling d,
      saplingFilterSum = saplingFilterSum s + sapling_filter d,
      orchardSum = orchardSum s + orchard d,
      orchardFilterSum = orchardFilterSum s + orchard_filter d\<rparr>"

text \<open>The object returned by the callback of \<^verbatim>\<open>chartData.map\<close> (cumulative pass).\<close>

definition sumPoint :: "Sums \<Rightarrow> ShieldedTransactionDatum \<Rightarrow> ChartPoint" where
  "sumPoint s d =
     \<lparr>p_height = height d,
      p_sapling = saplingSum s,
      p_sapling_filter = saplingFilterSum s,
      p_orchard = (if orchardSum s > 0 then Some (orchardSum s) else None),
      p_orchard_filter = (if orchardFilterSum s > 0 then Some (orchardFilterSum s) else None)\<rparr>"

text \<open>\<^verbatim>\<open>chartData.map\<close> with the accumulators threaded through the calls of its callback.\<close>

fun chartDataSumFrom :: "Sums \<Rightarrow> ShieldedTransactionDatum list \<Rightarrow> ChartPoint list" where
  "chartDataSumFrom s [] = []"
| "chartDataSumFrom s (d # ds) =
     (let s' = addDatum s d in sumPoint s' d # chartDataSumFrom s' ds)"

definition chartDataSum :: "ShieldedTransactionDatum list \<Rightarrow> ChartPoint list" where
  "chartDataSum chartData = chartDataSumFrom zeroSums chartData"

text \<open>The object pushed at a boundary height by the callback of \<^verbatim>\<open>chartData.forEach\<close>.\<close>

definition periodPoint :: "Sums \<Rightarrow> ShieldedTransactionDatum \<Rightarrow> ChartPoint" where
  "periodPoint s d =
     \<lparr>p_height = height d,
      p_sapling = saplingSum s,
      p_sapling_filter = saplingSum s - saplingFilterSum s,
      p_orchard = (if orchardSum s > 0 then Some (orchardSum s) else None),
      p_orchard_filter =
        (if orchardFilterSum s > 0 then Some (orchardSum s - orchardFilterSum s) else None)\<rparr>"

text \<open>
  One call of the \<^verbatim>\<open>forEach\<close> callback, on the pair of the array \<^verbatim>\<open>chartDataPeriod\<close>
  built so far and the accumulators.
\<close>

definition periodStep ::
  "ChartPoint list \<times> Sums \<Rightarrow> ShieldedTransactionDatum \<Rightarrow> ChartPoint list \<times> Sums" where
  "periodStep st d =
     (let s' = addDatum (snd st) d in
      if js_rem (height d) MONTH_PERIOD = 0
      then (fst st @ [periodPoint s' d], zeroSums)
      else (fst st, s'))"

definition periodLoop :: "ShieldedTransactionDatum list \<Rightarrow> ChartPoint list \<times> Sums" where
  "periodLoop chartData = foldl periodStep ([], zeroSums) chartData"

text \<open>The value of \<^verbatim>\<open>chartDataPeriod\<close> before the pool is looked at.\<close>

definition chartDataPeriod :: "bool \<Rightarrow> ShieldedTransactionDatum list \<Rightarrow> ChartPoint list" where
  "chartDataPeriod cumulative chartData =
     (if cumulative
      then filter (\<lambda>d. js_rem (p_height d) BLOCKS_PERIOD = 0) (chartDataSum chartData)
      else fst (periodLoop chartData))"

text \<open>The value of \<^verbatim>\<open>chartDataPeriod\<close> after the orchard-only filter.\<close>

definition chartDataShown ::
  "string \<Rightarrow> bool \<Rightarrow> ShieldedTransactionDatum list \<Rightarrow> ChartPoint list" where
  "chartDataShown pool cumulative chartData =
     (let chartDataPeriod = chartDataPeriod cumulative chartData in
      if pool = ''orchard''
      then filter (\<lambda>d. p_height d \<ge> ORCHARD_ACTIVATION) chartDataPeriod
      else chartDataPeriod)"

section \<open>The datasets handed to the chart\<close>

record Dataset =
  label :: string
  data :: "int option list"
  backgroundColor :: string
  borderColor :: string
  fill :: string
  radius :: nat

definition saplingChart :: "ChartPoint list \<Rightarrow> Dataset" where
  "saplingChart pts =
     \<lparr>label = ''Sapling'', data = map (\<lambda>d. Some (p_sapling d)) pts,
      backgroundColor = ''rgba(75, 192, 192, 0.4)'', borderColor = ''rgba(75, 192, 192, 1)'',
      fill = ''origin'', radius = 1\<rparr>"

definition saplingFilterChart :: "ChartPoint list \<Rightarrow> Dataset" where
  "saplingFilterChart pts =
     \<lparr>label = ''Sapling Filter'', data = map (\<lambda>d. Some (p_sapling_filter d)) pts,
      backgroundColor = ''rgba(54, 162, 235, 0.4)'', borderColor = ''rgba(54, 162, 235, 1)'',
      fill = ''origin'', radius = 1\<rparr>"

definition orchardChart :: "ChartPoint list \<Rightarrow> Dataset" where
  "orchardChart pts =
     \<lparr>label = ''Orchard'', data = map p_orchard pts,
      backgroundColor = ''rgba(255, 159, 64, 0.4)'', borderColor = ''rgba(255, 159, 64, 1)'',
      fill = ''origin'', radius = 1\<rparr>"

definition orchardFilterChart :: "ChartPoint list \<Rightarrow> Dataset" where
  "orchardFilterChart pts =
     \<lparr>label = ''Orchard Filter'', data = map p_orchard_filter pts,
      backgroundColor = ''rgba(255, 99, 132, 0.4)'', borderColor = ''rgba(255, 99, 132, 1)'',
      fill = ''origin'', radius = 1\<rparr>"

text \<open>The array \<^verbatim>\<open>chartSets\<close>, filled by the two \<^verbatim>\<open>if\<close> statements on the pool.\<close>

definition chartSets :: "string \<Rightarrow> bool \<Rightarrow> ChartPoint list \<Rightarrow> Dataset list" where
  "chartSets pool filter_on pts =
     (if pool = ''default'' \<or> pool = ''orchard''
      then (if filter_on then [orchardFilterChart pts] else []) @ [orchardChart pts]
      else [])
     @
     (if pool = ''default'' \<or> pool = ''sapling''
      then (if filter_on then [saplingFilterChart pts] else []) @ [saplingChart pts]
      else [])"

text \<open>
  What the effect passes to \<^verbatim>\<open>new Chart\<close>: the chart type, the heights behind the labels
  (the source labels each tick with the decimal string of the height), the datasets and
  the stacking flag of both axes. The effect returns early, creating no chart, while the
  data are loading or the canvas is not mounted.
\<close>

record ChartConfig =
  chartType :: string
  labelHeights :: "int list"
  datasets :: "Dataset list"
  stacked :: bool

definition renderEffect ::
  "bool \<Rightarrow> bool \<Rightarrow> ShieldedTransactionDatum list \<Rightarrow> string \<Rightarrow> bool \<Rightarrow> bool \<Rightarrow> ChartConfig option" where
  "renderEffect loading mounted chartData pool cumulative filter_on =
     (if loading \<or> \<not> mounted then None
      else
        let pts = chartDataShown pool cumulative chartData in
        Some \<lparr>chartType = (if cumulative then ''line'' else ''bar''),
              labelHeights = map p_height pts,
              datasets = chartSets pool filter_on pts,
              stacked = (if cumulative then False else True)\<rparr>)"

section \<open>The loader\<close>

text \<open>
  A value parsed from JSON. The properties of an object are an association list from
  property names to values.
\<close>

datatype json =
  JNull
| JBool bool
| JNum int
| JStr string
| JArr "json list"
| JObj "(string \<times> json) list"

text \<open>
  What \<^verbatim>\<open>fetch\<close> resolves to: the flag \<^verbatim>\<open>response.ok\<close>, the status, and the outcome of
  \<^verbatim>\<open>response.json()\<close>, which is \<open>None\<close> when the body is not well-formed JSON (the promise
  is then rejected with a syntax error).
\<close>

record Response =
  ok :: bool
  status :: nat
  body :: "json option"

text \<open>
  The rejections of the promise returned by \<^verbatim>\<open>fetchTransactionData\<close>: \<^verbatim>\<open>fetch\<close> itself
  rejected (transport failure), the error thrown on a response that is not ok, and the
  rejection of \<^verbatim>\<open>response.json()\<close>.
\<close>

datatype Error = FetchRejected | HttpError nat | JsonSyntaxError

text \<open>
  The network is a parameter: the argument is what \<^verbatim>\<open>fetch(url)\<close> settles to, \<open>None\<close>
  when the request is rejected. The function returns what was parsed as it is; the return
  type of the source is a compile-time annotation only.
\<close>

definition fetchTransactionData :: "Response option \<Rightarrow> Error + json" where
  "fetchTransactionData fetched =
     (case fetched of
        None \<Rightarrow> Inl FetchRejected
      | Some response \<Rightarrow>
          if \<not> ok response then Inl (HttpError (status response))
          else (case body response of
                  None \<Rightarrow> Inl JsonSyntaxError
                | Some resJson \<Rightarrow> Inr resJson))"

text \<open>The three state variables of the component.\<close>

record LoadState =
  chartData :: json
  isLoading :: bool
  error :: "Error option"

definition initialState :: LoadState where
  "initialState = \<lparr>chartData = JArr [], isLoading = False, error = None\<rparr>"

text \<open>
  The first effect, run to the end of its promise chain: \<^verbatim>\<open>setIsLoading(true)\<close>, then
  \<^verbatim>\<open>setChartData\<close> or \<^verbatim>\<open>setError\<close>, and \<^verbatim>\<open>setIsLoading(false)\<close> in both cases.
\<close>

definition loadEffect :: "Response option \<Rightarrow> LoadState \<Rightarrow> LoadState" where
  "loadEffect fetched st =
     (let st1 = st\<lparr>isLoading := True\<rparr> in
      case fetchTransactionData fetched of
        Inr d \<Rightarrow> st1\<lparr>chartData := d, isLoading := False\<rparr>
      | Inl e \<Rightarrow> st1\<lparr>error := Some e, isLoading := False\<rparr>)"

text \<open>What the component returns: the loading text, the error text, or the canvas.\<close>

datatype View = LoadingView | ErrorView Error | CanvasView

definition view :: "LoadState \<Rightarrow> View" where
  "view st =
     (if isLoading st then LoadingView
      else case error st of Some e \<Rightarrow> ErrorView e | None \<Rightarrow> CanvasView)"

text \<open>
  The declared shape of the loaded data (\<^verbatim>\<open>Array<ShieldedTransactionDatum>\<close>): an array
  of objects with the five numeric properties. \<open>asSamples\<close> reads a value of that
  shape as the list of its samples and is \<open>None\<close> on every other value.
\<close>

definition numField :: "(string \<times> json) list \<Rightarrow> string \<Rightarrow> int option" where
  "numField props k = (case map_of props k of Some (JNum n) \<Rightarrow> Some n | _ \<Rightarrow> None)"

fun asDatum :: "json \<Rightarrow> ShieldedTransactionDatum option" where
  "asDatum (JObj props) =
     (case (numField props ''height'', numField props ''sapling'',
            numField props ''sapling_filter'', numField props ''orchard'',
            numField props ''orchard_filter'') of
        (Some h, Some s, Some sf, Some oc, Some ocf) \<Rightarrow>
          Some \<lparr>height = h, sapling = s, sapling_filter = sf, orchard = oc, orchard_filter = ocf\<rparr>
      | _ \<Rightarrow> None)"
| "asDatum _ = None"

fun asSamples :: "json \<Rightarrow> ShieldedTransactionDatum list option" where
  "asSamples (JArr js) = those (map asDatum js)"
| "asSamples _ = None"

definition matchesShape :: "json \<Rightarrow> bool" where
  "matchesShape j = (asSamples j \<noteq> None)"

section \<open>Vocabulary of the properties\<close>

text \<open>A sample whose height the periodic pass treats as the end of a bucket.\<close>

abbreviation atBoundary :: "ShieldedTransactionDatum \<Rightarrow> bool" where
  "atBoundary d \<equiv> js_rem (height d) MONTH_PERIOD = 0"

text \<open>The amount of one field added up over a run of samples.\<close>

definition totalOf :: "(ShieldedTransactionDatum \<Rightarrow> int) \<Rightarrow> ShieldedTransactionDatum list \<Rightarrow> int" where
  "totalOf f xs = sum_list (map f xs)"

text \<open>The data model asks for non-negative deltas.\<close>

definition nonnegDeltas :: "ShieldedTransactionDatum list \<Rightarrow> bool" where
  "nonnegDeltas xs =
     list_all (\<lambda>d. 0 \<le> sapling d \<and> 0 \<le> sapling_filter d \<and> 0 \<le> orchard d \<and> 0 \<le> orchard_filter d) xs"

text \<open>
  The range in which the additions of the source are exact: each of the four totals of the
  samples is below \<open>2 ^ 53\<close>. With non-negative deltas every value that either pass
  computes is the total of a run of consecutive samples, or the difference of two such
  totals, so it stays in that range.
\<close>

definition safeTotals :: "ShieldedTransactionDatum list \<Rightarrow> bool" where
  "safeTotals xs \<longleftrightarrow>
     totalOf sapling xs < 2 ^ 53 \<and> totalOf sapling_filter xs < 2 ^ 53
     \<and> totalOf orchard xs < 2 ^ 53 \<and> totalOf orchard_filter xs < 2 ^ 53"

text \<open>
  The bucket point as the specification describes it, for a bucket made of the samples
  \<open>seg\<close> strictly between two boundaries and the boundary sample \<open>d\<close> that closes it:
  raw totals for the two pools, the complement for the two filtered series.
\<close>

definition bucketPoint :: "ShieldedTransactionDatum list \<Rightarrow> ShieldedTransactionDatum \<Rightarrow> ChartPoint" where
  "bucketPoint seg d =
     \<lparr>p_height = height d,
      p_sapling = totalOf sapling (seg @ [d]),
      p_sapling_filter = totalOf sapling (seg @ [d]) - totalOf sapling_filter (seg @ [d]),
      p_orchard =
        (if totalOf orchard (seg @ [d]) > 0 then Some (totalOf orchard (seg @ [d])) else None),
      p_orchard_filter =
        (if totalOf orchard_filter (seg @ [d]) > 0
         then Some (totalOf orchard (seg @ [d]) - totalOf orchard_filter (seg @ [d])) else None)\<rparr>"

text \<open>
  The cumulative point as the specification describes it, for the sample \<open>d\<close> and the
  samples \<open>pre\<close> before it: the running totals up to and including \<open>d\<close>.
\<close>

definition runningPoint :: "ShieldedTransactionDatum list \<Rightarrow> ShieldedTransactionDatum \<Rightarrow> ChartPoint" where
  "runningPoint pre d =
     \<lparr>p_height = height d,
      p_sapling = totalOf sapling (pre @ [d]),
      p_sapling_filter = totalOf sapling_filter (pre @ [d]),
      p_orchard =
        (if totalOf orchard (pre @ [d]) > 0 then Some (totalOf orchard (pre @ [d])) else None),
      p_orchard_filter =
        (if totalOf orchard_filter (pre @ [d]) > 0
         then Some (totalOf orchard_filter (pre @ [d])) else None)\<rparr>"

text \<open>An absent value read as the amount zero.\<close>

definition orZero :: "int option \<Rightarrow> int" where
  "orZero v = (case v of None \<Rightarrow> 0 | Some n \<Rightarrow> n)"

text \<open>
  The running total carried by the last point of a sequence; with no point at all it is
  the value \<open>0\<close> that the accumulators start from.
\<close>

definition lastTotal :: "(ChartPoint \<Rightarrow> int) \<Rightarrow> ChartPoint list \<Rightarrow> int" where
  "lastTotal f pts = (if pts = [] then 0 else f (last pts))"

text \<open>
  A run of three samples on which the theorems are instantiated: a sample at a boundary
  height, a sample inside the next bucket, and the sample at the boundary that closes it.
\<close>

definition sampleRun :: "ShieldedTransactionDatum list" where
  "sampleRun =
     [\<lparr>height = 32256, sapling = 1, sapling_filter = 1, orchard = 0, orchard_filter = 0\<rparr>,
      \<lparr>height = 40000, sapling = 10, sapling_filter = 2, orchard = 7, orchard_filter = 3\<rparr>,
      \<lparr>height = 64512, sapling = 5, sapling_filter = 1, orchard = 1, orchard_filter = 1\<rparr>]"

text \<open>What non-negative deltas keep true of the two orchard accumulators.\<close>

definition okSums :: "Sums \<Rightarrow> bool" where
  "okSums s \<longleftrightarrow> 0 \<le> orchardSum s \<and> 0 \<le> orchardFilterSum s"

section \<open>Auxiliary facts about the two passes\<close>

lemma js_rem_eq_0_iff: "b \<noteq> 0 \<Longrightarrow> js_rem a b = 0 \<longleftrightarrow> b dvd a"
proof -
  assume "b \<noteq> 0"
  have "js_rem a b = 0 \<longleftrightarrow> \<bar>a\<bar> mod \<bar>b\<bar> = 0"
    by (cases "a = 0") (simp_all add: js_rem_def sgn_if)
  also have "\<dots> \<longleftrightarrow> \<bar>b\<bar> dvd \<bar>a\<bar>"
    by (simp add: dvd_eq_mod_eq_0)
  also have "\<dots> \<longleftrightarrow> b dvd a"
    by simp
  finally show ?thesis .
qed

lemma foldl_addDatum:
  "foldl addDatum s xs =
     \<lparr>saplingSum = saplingSum s + totalOf sapling xs,
      saplingFilterSum = saplingFilterSum s + totalOf sapling_filter xs,
      orchardSum = orchardSum s + totalOf orchard xs,
      orchardFilterSum = orchardFilterSum s + totalOf orchard_filter xs\<rparr>"
proof (induction xs arbitrary: s)
  case Nil
  show ?case by (simp add: totalOf_def)
next
  case (Cons x xs)
  show ?case
    by (simp add: Cons.IH [of "addDatum s x"]) (simp add: addDatum_def totalOf_def)
qed

lemma periodStep_boundary:
  "atBoundary d \<Longrightarrow> periodStep (out, s) d = (out @ [periodPoint (addDatum s d) d], zeroSums)"
  by (simp add: periodStep_def)

lemma periodStep_inner:
  "\<not> atBoundary d \<Longrightarrow> periodStep (out, s) d = (out, addDatum s d)"
  by (simp add: periodStep_def)

lemma periodStep_fst_append:
  "foldl periodStep (out, s) xs =
     (out @ fst (foldl periodStep ([], s) xs), snd (foldl periodStep ([], s) xs))"
proof (induction xs arbitrary: out s)
  case Nil
  show ?case by simp
next
  case (Cons x xs)
  show ?case
  proof (cases "atBoundary x")
    case True
    let ?p = "periodPoint (addDatum s x) x"
    show ?thesis
      by (simp add: periodStep_boundary [OF True]
            Cons.IH [of "out @ [?p]" zeroSums] Cons.IH [of "[?p]" zeroSums])
  next
    case False
    show ?thesis
      by (simp add: periodStep_inner [OF False] Cons.IH [of out "addDatum s x"])
  qed
qed

lemma foldl_periodStep_inner:
  "\<forall>d\<in>set xs. \<not> atBoundary d \<Longrightarrow> foldl periodStep (out, s) xs = (out, foldl addDatum s xs)"
  by (induction xs arbitrary: s) (simp_all add: periodStep_inner)

lemma foldl_periodStep_bucket:
  assumes "\<forall>e\<in>set seg. \<not> atBoundary e" and "atBoundary d"
  shows "foldl periodStep (out, s) (seg @ [d]) =
           (out @ [periodPoint (foldl addDatum s (seg @ [d])) d], zeroSums)"
  using assms by (simp add: foldl_periodStep_inner periodStep_boundary)

lemma periodLoop_append:
  "periodLoop (xs @ ys) =
     (fst (periodLoop xs) @ fst (foldl periodStep ([], snd (periodLoop xs)) ys),
      snd (foldl periodStep ([], snd (periodLoop xs)) ys))"
proof -
  have "periodLoop (xs @ ys) = foldl periodStep (fst (periodLoop xs), snd (periodLoop xs)) ys"
    by (simp add: periodLoop_def)
  then show ?thesis
    by (simp only: periodStep_fst_append [of "fst (periodLoop xs)"])
qed

lemma periodLoop_reset:
  "xs = [] \<or> atBoundary (last xs) \<Longrightarrow> snd (periodLoop xs) = zeroSums"
proof (cases xs rule: rev_cases)
  case Nil
  then show ?thesis by (simp add: periodLoop_def)
next
  case (snoc ys y)
  assume "xs = [] \<or> atBoundary (last xs)"
  with snoc have "atBoundary y" by simp
  then show ?thesis
    by (simp add: snoc periodLoop_def periodStep_def)
qed

lemma split_last_boundary:
  "\<exists>pre seg. xs = pre @ seg \<and> (pre = [] \<or> atBoundary (last pre)) \<and> (\<forall>e\<in>set seg. \<not> atBoundary e)"
proof (induction xs rule: rev_induct)
  case Nil
  show ?case by simp
next
  case (snoc x xs)
  show ?case
  proof (cases "atBoundary x")
    case True
    have "xs @ [x] = (xs @ [x]) @ [] \<and> atBoundary (last (xs @ [x]))"
      using True by simp
    then show ?thesis by (metis empty_iff list.set(1))
  next
    case False
    from snoc.IH obtain pre seg where
      "xs = pre @ seg" "pre = [] \<or> atBoundary (last pre)" "\<forall>e\<in>set seg. \<not> atBoundary e"
      by blast
    with False have "xs @ [x] = pre @ (seg @ [x]) \<and> (pre = [] \<or> atBoundary (last pre))
        \<and> (\<forall>e\<in>set (seg @ [x]). \<not> atBoundary e)"
      by simp
    then show ?thesis by blast
  qed
qed

lemma periodLoop_snoc: "periodLoop (xs @ [x]) = periodStep (periodLoop xs) x"
  by (simp add: periodLoop_def)

lemma periodLoop_tail:
  assumes "pre = [] \<or> atBoundary (last pre)" and "\<forall>e\<in>set seg. \<not> atBoundary e"
  shows "periodLoop (pre @ seg) = (fst (periodLoop pre), foldl addDatum zeroSums seg)"
  using assms
  by (simp add: periodLoop_append periodLoop_reset foldl_periodStep_inner)

lemma periodLoop_nth:
  "i < length (fst (periodLoop xs)) \<Longrightarrow>
   \<exists>pre seg d rest. xs = pre @ seg @ d # rest
     \<and> (pre = [] \<or> atBoundary (last pre))
     \<and> (\<forall>e\<in>set seg. \<not> atBoundary e) \<and> atBoundary d
     \<and> length (fst (periodLoop pre)) = i
     \<and> fst (periodLoop xs) ! i = periodPoint (foldl addDatum zeroSums (seg @ [d])) d"
proof (induction xs arbitrary: i rule: rev_induct)
  case Nil
  then show ?case by (simp add: periodLoop_def)
next
  case (snoc x xs)
  let ?out = "fst (periodLoop xs)"
  have old: ?case if "i < length ?out" and eq: "fst (periodLoop (xs @ [x])) ! i = ?out ! i"
  proof -
    from snoc.IH [OF that(1)] obtain pre seg d rest where
      h: "xs = pre @ seg @ d # rest" "pre = [] \<or> atBoundary (last pre)"
         "\<forall>e\<in>set seg. \<not> atBoundary e" "atBoundary d" "length (fst (periodLoop pre)) = i"
         "?out ! i = periodPoint (foldl addDatum zeroSums (seg @ [d])) d"
      by blast
    from h(1) have "xs @ [x] = pre @ seg @ d # (rest @ [x])" by simp
    with h eq show ?thesis by metis
  qed
  show ?case
  proof (cases "atBoundary x")
    case False
    then have "fst (periodLoop (xs @ [x])) = ?out"
      by (simp add: periodLoop_snoc periodStep_def)
    with snoc.prems old show ?thesis by simp
  next
    case True
    let ?p = "periodPoint (addDatum (snd (periodLoop xs)) x) x"
    from True have out: "fst (periodLoop (xs @ [x])) = ?out @ [?p]"
      by (simp add: periodLoop_snoc periodStep_def)
    show ?thesis
    proof (cases "i < length ?out")
      case True
      with old out show ?thesis by (simp add: nth_append)
    next
      case False
      with snoc.prems out have i: "i = length ?out" by simp
      from split_last_boundary [of xs] obtain pre seg where
        s: "xs = pre @ seg" "pre = [] \<or> atBoundary (last pre)" "\<forall>e\<in>set seg. \<not> atBoundary e"
        by blast
      have pl: "periodLoop xs = (fst (periodLoop pre), foldl addDatum zeroSums seg)"
        using periodLoop_tail [OF s(2) s(3)] s(1) by simp
      have "length (fst (periodLoop pre)) = i"
        using i pl by simp
      moreover have "fst (periodLoop (xs @ [x])) ! i = periodPoint (foldl addDatum zeroSums (seg @ [x])) x"
        using i out pl by simp
      moreover have "xs @ [x] = pre @ seg @ x # []"
        using s(1) by simp
      ultimately show ?thesis
        using s(2) s(3) \<open>atBoundary x\<close> by blast
    qed
  qed
qed

lemma periodPoint_bucket:
  "periodPoint (foldl addDatum zeroSums (seg @ [d])) d = bucketPoint seg d"
  by (simp only: foldl_addDatum) (simp add: periodPoint_def bucketPoint_def zeroSums_def)

lemma periodic_example:
  "chartDataPeriod False sampleRun
   = [\<lparr>p_height = 32256, p_sapling = 1, p_sapling_filter = 0, p_orchard = None, p_orchard_filter = None\<rparr>,
      \<lparr>p_height = 64512, p_sapling = 15, p_sapling_filter = 12, p_orchard = Some 8, p_orchard_filter = Some 4\<rparr>]"
  by (simp add: sampleRun_def chartDataPeriod_def periodLoop_def periodStep_def periodPoint_def addDatum_def
        zeroSums_def js_rem_def MONTH_PERIOD_def)

lemma chartDataSumFrom_length: "length (chartDataSumFrom s xs) = length xs"
  by (induction xs arbitrary: s) (simp_all add: Let_def)

lemma chartDataSumFrom_nth:
  "i < length xs \<Longrightarrow>
   chartDataSumFrom s xs ! i = sumPoint (foldl addDatum s (take (Suc i) xs)) (xs ! i)"
proof (induction xs arbitrary: s i)
  case Nil
  then show ?case by simp
next
  case (Cons x xs)
  show ?case
  proof (cases i)
    case 0
    then show ?thesis by (simp add: Let_def)
  next
    case (Suc j)
    with Cons.prems have "j < length xs" by simp
    from Cons.IH [OF this, of "addDatum s x"] Suc show ?thesis
      by (simp add: Let_def)
  qed
qed

lemma sumPoint_running:
  "sumPoint (foldl addDatum zeroSums (pre @ [d])) d = runningPoint pre d"
  by (simp only: foldl_addDatum) (simp add: sumPoint_def runningPoint_def zeroSums_def)

lemma chartDataSum_eq_map:
  "chartDataSum xs = map (\<lambda>i. runningPoint (take i xs) (xs ! i)) [0..<length xs]"
proof (rule nth_equalityI)
  show "length (chartDataSum xs) = length (map (\<lambda>i. runningPoint (take i xs) (xs ! i)) [0..<length xs])"
    by (simp add: chartDataSum_def chartDataSumFrom_length)
next
  fix i
  assume "i < length (chartDataSum xs)"
  then have i: "i < length xs"
    by (simp add: chartDataSum_def chartDataSumFrom_length)
  then have "chartDataSum xs ! i = sumPoint (foldl addDatum zeroSums (take i xs @ [xs ! i])) (xs ! i)"
    by (simp add: chartDataSum_def chartDataSumFrom_nth take_Suc_conv_app_nth)
  with i show "chartDataSum xs ! i = map (\<lambda>i. runningPoint (take i xs) (xs ! i)) [0..<length xs] ! i"
    by (simp only: sumPoint_running) simp
qed

lemma runningPoint_height: "p_height (runningPoint pre d) = height d"
  by (simp add: runningPoint_def)

lemma week_test: "js_rem h BLOCKS_PERIOD = 0 \<longleftrightarrow> BLOCKS_PERIOD dvd h"
  by (rule js_rem_eq_0_iff) (simp add: BLOCKS_PERIOD_def)

lemma month_test: "js_rem h MONTH_PERIOD = 0 \<longleftrightarrow> MONTH_PERIOD dvd h"
  by (rule js_rem_eq_0_iff) (simp add: MONTH_PERIOD_def)

lemma chartDataPeriod_cumulative:
  "chartDataPeriod True xs =
     map (\<lambda>i. runningPoint (take i xs) (xs ! i))
       (filter (\<lambda>i. BLOCKS_PERIOD dvd height (xs ! i)) [0..<length xs])"
  by (simp add: chartDataPeriod_def chartDataSum_eq_map filter_map comp_def
        runningPoint_height week_test)

lemma nonnegDeltas_append: "nonnegDeltas (xs @ ys) \<longleftrightarrow> nonnegDeltas xs \<and> nonnegDeltas ys"
  by (simp add: nonnegDeltas_def)

lemma nonnegDeltas_Cons:
  "nonnegDeltas (d # ds) \<longleftrightarrow>
     (0 \<le> sapling d \<and> 0 \<le> sapling_filter d \<and> 0 \<le> orchard d \<and> 0 \<le> orchard_filter d)
     \<and> nonnegDeltas ds"
  by (simp add: nonnegDeltas_def)

lemma nonnegDeltas_Nil: "nonnegDeltas []"
  by (simp add: nonnegDeltas_def)

lemma total_nonneg:
  assumes "nonnegDeltas ys"
  shows "0 \<le> totalOf sapling ys" and "0 \<le> totalOf sapling_filter ys"
    and "0 \<le> totalOf orchard ys" and "0 \<le> totalOf orchard_filter ys"
  using assms by (auto simp: totalOf_def nonnegDeltas_def list_all_iff intro!: sum_list_nonneg)

lemma totalOf_append: "totalOf f (xs @ ys) = totalOf f xs + totalOf f ys"
  by (simp add: totalOf_def)

text \<open>
  Under non-negative deltas a run of consecutive samples stays in the exact range when the
  whole input does, and so do the two differences that the periodic pass computes.
\<close>

lemma safe_runs:
  assumes nn: "nonnegDeltas (pre @ mid @ post)" and safe: "safeTotals (pre @ mid @ post)"
  shows "safeTotals mid"
proof -
  from nn have a: "nonnegDeltas pre" and b: "nonnegDeltas post"
    by (simp_all add: nonnegDeltas_append)
  from total_nonneg [OF a] total_nonneg [OF b] safe show ?thesis
    by (simp add: safeTotals_def totalOf_append)
qed

lemma safe_values:
  assumes nn: "nonnegDeltas (pre @ mid @ post)" and safe: "safeTotals (pre @ mid @ post)"
  shows "\<bar>totalOf sapling mid - totalOf sapling_filter mid\<bar> < 2 ^ 53"
    and "\<bar>totalOf orchard mid - totalOf orchard_filter mid\<bar> < 2 ^ 53"
proof -
  from nn have m: "nonnegDeltas mid"
    by (simp add: nonnegDeltas_append)
  from total_nonneg [OF m] safe_runs [OF nn safe]
  show "\<bar>totalOf sapling mid - totalOf sapling_filter mid\<bar> < 2 ^ 53"
    and "\<bar>totalOf orchard mid - totalOf orchard_filter mid\<bar> < 2 ^ 53"
    by (simp_all add: safeTotals_def) linarith+
qed

lemma cumulative_nth:
  assumes "j < length (chartDataPeriod True xs)"
  shows "\<exists>pre d rest. xs = pre @ d # rest \<and> chartDataPeriod True xs ! j = runningPoint pre d"
proof -
  let ?is = "filter (\<lambda>i. BLOCKS_PERIOD dvd height (xs ! i)) [0..<length xs]"
  from assms have j: "j < length ?is"
    by (simp add: chartDataPeriod_cumulative)
  then have "?is ! j \<in> set ?is"
    by (rule nth_mem)
  then have i: "?is ! j < length xs"
    by simp
  have "chartDataPeriod True xs ! j = runningPoint (take (?is ! j) xs) (xs ! (?is ! j))"
    using j by (simp add: chartDataPeriod_cumulative)
  moreover have "xs = take (?is ! j) xs @ xs ! (?is ! j) # drop (Suc (?is ! j)) xs"
    using i by (rule id_take_nth_drop)
  ultimately show ?thesis by blast
qed

lemma running_absent:
  assumes "nonnegDeltas (pre @ [d])"
  shows "p_orchard (runningPoint pre d) = None \<longleftrightarrow> totalOf orchard (pre @ [d]) = 0"
    and "p_orchard_filter (runningPoint pre d) = None \<longleftrightarrow> totalOf orchard_filter (pre @ [d]) = 0"
  using total_nonneg(3,4) [OF assms] by (auto simp: runningPoint_def)

lemma bucket_absent:
  assumes "nonnegDeltas (seg @ [d])"
  shows "p_orchard (bucketPoint seg d) = None \<longleftrightarrow> totalOf orchard (seg @ [d]) = 0"
    and "p_orchard_filter (bucketPoint seg d) = None \<longleftrightarrow> totalOf orchard_filter (seg @ [d]) = 0"
  using total_nonneg(3,4) [OF assms] by (auto simp: bucketPoint_def)

lemma periodic_nth:
  assumes "i < length (chartDataPeriod False xs)"
  shows "\<exists>pre seg d rest. xs = pre @ seg @ d # rest
     \<and> (pre = [] \<or> atBoundary (last pre))
     \<and> (\<forall>e\<in>set seg. \<not> atBoundary e) \<and> atBoundary d
     \<and> length (chartDataPeriod False pre) = i
     \<and> chartDataPeriod False xs ! i = bucketPoint seg d"
proof -
  from assms have "i < length (fst (periodLoop xs))"
    by (simp add: chartDataPeriod_def)
  from periodLoop_nth [OF this] show ?thesis
    by (simp only: periodPoint_bucket chartDataPeriod_def if_False)
qed

lemma cumulative_example:
  "chartDataPeriod True sampleRun
   = [\<lparr>p_height = 32256, p_sapling = 1, p_sapling_filter = 1, p_orchard = None, p_orchard_filter = None\<rparr>,
      \<lparr>p_height = 64512, p_sapling = 16, p_sapling_filter = 4, p_orchard = Some 8, p_orchard_filter = Some 4\<rparr>]"
  by (simp add: sampleRun_def chartDataPeriod_def chartDataSum_def sumPoint_def addDatum_def
        zeroSums_def js_rem_def BLOCKS_PERIOD_def Let_def)

lemma sorted_running:
  assumes m: "\<And>s d. m (sumPoint s d) = a s"
    and up: "\<And>s d. d \<in> set xs \<Longrightarrow> a s \<le> a (addDatum s d)"
  shows "sorted (map m (chartDataSumFrom s xs)) \<and> (\<forall>p\<in>set (chartDataSumFrom s xs). (a s :: int) \<le> m p)"
  using up
proof (induction xs arbitrary: s)
  case Nil
  show ?case by simp
next
  case (Cons x xs)
  let ?s = "addDatum s x"
  have ih: "sorted (map m (chartDataSumFrom ?s xs))" "\<forall>p\<in>set (chartDataSumFrom ?s xs). a ?s \<le> m p"
    using Cons.IH [of ?s] Cons.prems by simp_all
  have step: "a s \<le> a ?s"
    using Cons.prems [of x s] by simp
  from ih step show ?case
    by (auto simp: Let_def m)
qed

lemma sorted_shown:
  assumes "sorted (map m (chartDataSum xs))"
  shows "sorted (map m (chartDataShown pool True xs))"
  using assms by (simp add: chartDataShown_def chartDataPeriod_def Let_def sorted_filter)

lemma period_conservation:
  assumes m: "\<And>s d. good s \<Longrightarrow> m (periodPoint s d) = a s"
    and a0: "a zeroSums = 0" and ok0: "good zeroSums"
    and okstep: "\<And>s d. good s \<Longrightarrow> d \<in> set xs \<Longrightarrow> good (addDatum s d)"
    and astep: "\<And>s d. a (addDatum s d) = a s + f d"
    and oks: "good s"
  shows "sum_list (map m (fst (foldl periodStep (out, s) xs))) + a (snd (foldl periodStep (out, s) xs))
       = sum_list (map m out) + a s + (totalOf f xs :: int)"
  using okstep oks
proof (induction xs arbitrary: out s)
  case Nil
  show ?case by (simp add: totalOf_def)
next
  case (Cons x xs)
  have good': "good (addDatum s x)"
    using Cons.prems by simp
  have step: "\<And>s d. good s \<Longrightarrow> d \<in> set xs \<Longrightarrow> good (addDatum s d)"
    using Cons.prems(1) by simp
  show ?case
  proof (cases "atBoundary x")
    case True
    have "periodStep (out, s) x = (out @ [periodPoint (addDatum s x) x], zeroSums)"
      using True by (rule periodStep_boundary)
    with Cons.IH [OF step ok0, of "out @ [periodPoint (addDatum s x) x]"] show ?thesis
      by (simp add: m [OF good'] a0 astep totalOf_def)
  next
    case False
    have "periodStep (out, s) x = (out, addDatum s x)"
      using False by (rule periodStep_inner)
    with Cons.IH [OF step good', of out] show ?thesis
      by (simp add: astep totalOf_def)
  qed
qed

lemma period_conservation_closed:
  assumes m: "\<And>s d. good s \<Longrightarrow> m (periodPoint s d) = a s"
    and a0: "a zeroSums = 0" and ok0: "good zeroSums"
    and okstep: "\<And>s d. good s \<Longrightarrow> d \<in> set xs \<Longrightarrow> good (addDatum s d)"
    and astep: "\<And>s d. a (addDatum s d) = a s + f d"
    and closed: "xs = [] \<or> atBoundary (last xs)"
  shows "sum_list (map m (chartDataPeriod False xs)) = (totalOf f xs :: int)"
proof -
  have "snd (periodLoop xs) = zeroSums"
    using closed by (rule periodLoop_reset)
  with period_conservation [of good m a xs f zeroSums "[]", OF m a0 ok0 okstep astep ok0]
  show ?thesis
    by (simp add: chartDataPeriod_def periodLoop_def a0)
qed

lemma periodic_sums:
  assumes nn: "nonnegDeltas xs" and closed: "xs = [] \<or> atBoundary (last xs)"
  shows "sum_list (map p_sapling (chartDataPeriod False xs)) = totalOf sapling xs"
    and "sum_list (map (\<lambda>p. orZero (p_orchard p)) (chartDataPeriod False xs)) = totalOf orchard xs"
    and "sum_list (map (\<lambda>p. p_sapling p - p_sapling_filter p) (chartDataPeriod False xs))
           = totalOf sapling_filter xs"
    and "sum_list (map (\<lambda>p. case p_orchard_filter p of None \<Rightarrow> 0 | Some c \<Rightarrow> orZero (p_orchard p) - c)
             (chartDataPeriod False xs)) = totalOf orchard_filter xs"
proof -
  from nn have okstep: "\<And>s d. okSums s \<Longrightarrow> d \<in> set xs \<Longrightarrow> okSums (addDatum s d)"
    by (simp add: nonnegDeltas_def list_all_iff okSums_def addDatum_def)
  have ok0: "okSums zeroSums"
    by (simp add: okSums_def zeroSums_def)
  show "sum_list (map p_sapling (chartDataPeriod False xs)) = totalOf sapling xs"
    by (rule period_conservation_closed [of okSums p_sapling saplingSum xs sapling, OF _ _ ok0 okstep _ closed])
       (simp_all add: periodPoint_def zeroSums_def addDatum_def)
  show "sum_list (map (\<lambda>p. orZero (p_orchard p)) (chartDataPeriod False xs)) = totalOf orchard xs"
    by (rule period_conservation_closed [of okSums _ orchardSum xs orchard, OF _ _ ok0 okstep _ closed])
       (simp_all add: periodPoint_def zeroSums_def addDatum_def orZero_def okSums_def)
  show "sum_list (map (\<lambda>p. p_sapling p - p_sapling_filter p) (chartDataPeriod False xs))
           = totalOf sapling_filter xs"
    by (rule period_conservation_closed [of okSums _ saplingFilterSum xs sapling_filter, OF _ _ ok0 okstep _ closed])
       (simp_all add: periodPoint_def zeroSums_def addDatum_def)
  show "sum_list (map (\<lambda>p. case p_orchard_filter p of None \<Rightarrow> 0 | Some c \<Rightarrow> orZero (p_orchard p) - c)
             (chartDataPeriod False xs)) = totalOf orchard_filter xs"
    by (rule period_conservation_closed [of okSums _ orchardFilterSum xs orchard_filter, OF _ _ ok0 okstep _ closed])
       (auto simp: periodPoint_def zeroSums_def addDatum_def orZero_def okSums_def)
qed

lemma chartDataSumFrom_append:
  "chartDataSumFrom s (xs @ ys) = chartDataSumFrom s xs @ chartDataSumFrom (foldl addDatum s xs) ys"
  by (induction xs arbitrary: s) (simp_all add: Let_def)

lemma chartDataSum_snoc: "chartDataSum (ys @ [y]) = chartDataSum ys @ [runningPoint ys y]"
proof -
  have "chartDataSum (ys @ [y]) = chartDataSum ys @ [sumPoint (foldl addDatum zeroSums (ys @ [y])) y]"
    by (simp add: chartDataSum_def chartDataSumFrom_append Let_def)
  then show ?thesis
    by (simp only: sumPoint_running)
qed

lemma month_is_week: "js_rem h MONTH_PERIOD = 0 \<Longrightarrow> js_rem h BLOCKS_PERIOD = 0"
proof -
  assume "js_rem h MONTH_PERIOD = 0"
  then have "MONTH_PERIOD dvd h"
    by (simp add: month_test)
  moreover have "BLOCKS_PERIOD dvd MONTH_PERIOD"
    by (simp add: BLOCKS_PERIOD_def MONTH_PERIOD_def)
  ultimately have "BLOCKS_PERIOD dvd h"
    by (rule dvd_trans [rotated])
  then show ?thesis
    by (simp add: week_test)
qed

lemma cumulative_last:
  assumes "atBoundary y"
  shows "chartDataPeriod True (ys @ [y]) = chartDataPeriod True ys @ [runningPoint ys y]"
  using month_is_week [OF assms]
  by (simp add: chartDataPeriod_def chartDataSum_snoc runningPoint_height)

lemma cumulative_final:
  assumes nn: "nonnegDeltas xs" and closed: "xs = [] \<or> atBoundary (last xs)"
  shows "lastTotal p_sapling (chartDataPeriod True xs) = totalOf sapling xs"
    and "lastTotal (\<lambda>p. orZero (p_orchard p)) (chartDataPeriod True xs) = totalOf orchard xs"
    and "lastTotal p_sapling_filter (chartDataPeriod True xs) = totalOf sapling_filter xs"
    and "lastTotal (\<lambda>p. orZero (p_orchard_filter p)) (chartDataPeriod True xs) = totalOf orchard_filter xs"
proof -
  have "lastTotal p_sapling (chartDataPeriod True xs) = totalOf sapling xs
      \<and> lastTotal (\<lambda>p. orZero (p_orchard p)) (chartDataPeriod True xs) = totalOf orchard xs
      \<and> lastTotal p_sapling_filter (chartDataPeriod True xs) = totalOf sapling_filter xs
      \<and> lastTotal (\<lambda>p. orZero (p_orchard_filter p)) (chartDataPeriod True xs) = totalOf orchard_filter xs"
  proof (cases xs rule: rev_cases)
    case Nil
    then show ?thesis
      by (simp add: lastTotal_def chartDataPeriod_def chartDataSum_def totalOf_def)
  next
    case (snoc ys y)
    with closed have b: "atBoundary y" by simp
    from nn snoc have "nonnegDeltas (ys @ [y])" by simp
    from total_nonneg [OF this] show ?thesis
      by (auto simp: snoc cumulative_last [OF b] lastTotal_def runningPoint_def orZero_def)
  qed
  then show "lastTotal p_sapling (chartDataPeriod True xs) = totalOf sapling xs"
    and "lastTotal (\<lambda>p. orZero (p_orchard p)) (chartDataPeriod True xs) = totalOf orchard xs"
    and "lastTotal p_sapling_filter (chartDataPeriod True xs) = totalOf sapling_filter xs"
    and "lastTotal (\<lambda>p. orZero (p_orchard_filter p)) (chartDataPeriod True xs) = totalOf orchard_filter xs"
    by simp_all
qed

lemma sum_list_complement:
  "sum_list (map g ps) = sum_list (map f ps) - sum_list (map (\<lambda>p. f p - (g p :: int)) ps)"
  by (induction ps) simp_all

lemma fetch_fails_iff:
  "(\<exists>e. fetchTransactionData fetched = Inl e) \<longleftrightarrow>
     (fetched = None \<or> (\<exists>r. fetched = Some r \<and> (\<not> ok r \<or> body r = None)))"
  by (auto simp: fetchTransactionData_def split: option.splits)

lemma fetch_succeeds_iff:
  "fetchTransactionData fetched = Inr j \<longleftrightarrow> (\<exists>r. fetched = Some r \<and> ok r \<and> body r = Some j)"
  by (auto simp: fetchTransactionData_def split: option.splits)

lemma view_loadEffect:
  "view (loadEffect fetched st) =
     (case fetchTransactionData fetched of
        Inl e \<Rightarrow> ErrorView e
      | Inr j \<Rightarrow> (case error st of Some e \<Rightarrow> ErrorView e | None \<Rightarrow> CanvasView))"
  by (simp add: view_def loadEffect_def split: sum.splits)

text \<open>
  The two examples of the specification that fix the behaviour on small inputs: three
  weekly samples in cumulative mode, and the empty input in both modes.
\<close>

lemma cumulative_three_weeks:
  "chartDataPeriod True
       [\<lparr>height = 0, sapling = 10, sapling_filter = 2, orchard = 0, orchard_filter = 0\<rparr>,
        \<lparr>height = 8064, sapling = 10, sapling_filter = 2, orchard = 0, orchard_filter = 0\<rparr>,
        \<lparr>height = 16128, sapling = 10, sapling_filter = 2, orchard = 0, orchard_filter = 0\<rparr>]
   = [\<lparr>p_height = 0, p_sapling = 10, p_sapling_filter = 2, p_orchard = None, p_orchard_filter = None\<rparr>,
      \<lparr>p_height = 8064, p_sapling = 20, p_sapling_filter = 4, p_orchard = None, p_orchard_filter = None\<rparr>,
      \<lparr>p_height = 16128, p_sapling = 30, p_sapling_filter = 6, p_orchard = None, p_orchard_filter = None\<rparr>]"
  by (simp add: chartDataPeriod_def chartDataSum_def sumPoint_def addDatum_def
        zeroSums_def js_rem_def BLOCKS_PERIOD_def Let_def)

lemma empty_input_no_points: "chartDataShown pool cumulative [] = []"
  by (simp add: chartDataShown_def chartDataPeriod_def chartDataSum_def periodLoop_def)

section \<open>Periodic mode\<close>

text \<open>
  Claim C1. In periodic mode every emitted point is the point of one bucket: the input
  splits into the samples \<open>pre\<close> up to the previous boundary (none, or ending at a
  boundary height), the samples \<open>seg\<close> after it that are not at a boundary, the boundary
  sample \<open>d\<close> and the rest, and the point number \<open>i\<close> is \<open>bucketPoint seg d\<close>: its
  sapling field is the sapling total of the bucket, its orchard field the orchard total
  (absent when that total is not positive), its filtered sapling field is the sapling total
  minus the filtered sapling total, and its filtered orchard field, when present, is the
  orchard total minus the filtered orchard total.
\<close>

theorem periodic_bucket_is_complement:
  assumes "i < length (chartDataPeriod False xs)"
  shows "\<exists>pre seg d rest. xs = pre @ seg @ d # rest
     \<and> (pre = [] \<or> atBoundary (last pre))
     \<and> (\<forall>e\<in>set seg. \<not> atBoundary e) \<and> atBoundary d
     \<and> length (chartDataPeriod False pre) = i
     \<and> chartDataPeriod False xs ! i = bucketPoint seg d"
  using assms by (rule periodic_nth)

theorem periodic_bucket_is_complement_witness:
  "(1::nat) < length (chartDataPeriod False sampleRun)
   \<and> (\<exists>pre seg d rest. sampleRun
          = pre @ seg @ d # rest
     \<and> (pre = [] \<or> atBoundary (last pre))
     \<and> (\<forall>e\<in>set seg. \<not> atBoundary e) \<and> atBoundary d
     \<and> length (chartDataPeriod False pre) = 1
     \<and> \<lparr>p_height = 64512, p_sapling = 15, p_sapling_filter = 12, p_orchard = Some 8,
          p_orchard_filter = Some 4\<rparr> = bucketPoint seg d)"
proof -
  let ?xs = sampleRun
  have h: "(1::nat) < length (chartDataPeriod False ?xs)"
    by (simp add: periodic_example)
  from periodic_bucket_is_complement [OF h] h show ?thesis
    by (simp add: periodic_example)
qed

text \<open>
  Claim C8. Height \<open>0\<close> is a boundary of the periodic pass: on a first sample of height
  \<open>0\<close> the callback, started from the zero accumulators, pushes the point built from
  accumulators that hold exactly the deltas of that sample and leaves all four
  accumulators at zero; the output for the whole input is that point followed by the
  output for the remaining samples.
\<close>

theorem periodic_height_zero_is_boundary:
  assumes "height d = 0"
  shows "periodStep ([], zeroSums) d =
           ([periodPoint \<lparr>saplingSum = sapling d, saplingFilterSum = sapling_filter d,
                          orchardSum = orchard d, orchardFilterSum = orchard_filter d\<rparr> d],
            zeroSums)
       \<and> chartDataPeriod False (d # rest) =
           \<lparr>p_height = 0, p_sapling = sapling d,
            p_sapling_filter = sapling d - sapling_filter d,
            p_orchard = (if orchard d > 0 then Some (orchard d) else None),
            p_orchard_filter =
              (if orchard_filter d > 0 then Some (orchard d - orchard_filter d) else None)\<rparr>
           # chartDataPeriod False rest"
proof -
  from assms have b: "atBoundary d"
    by (simp add: js_rem_def)
  have s: "addDatum zeroSums d = \<lparr>saplingSum = sapling d, saplingFilterSum = sapling_filter d,
                          orchardSum = orchard d, orchardFilterSum = orchard_filter d\<rparr>"
    by (simp add: addDatum_def zeroSums_def)
  have step: "periodStep ([], zeroSums) d = ([periodPoint (addDatum zeroSums d) d], zeroSums)"
    using periodStep_boundary [OF b, of "[]" zeroSums] by simp
  have "periodLoop (d # rest) = foldl periodStep ([periodPoint (addDatum zeroSums d) d], zeroSums) rest"
    by (simp add: periodLoop_def step)
  then have "fst (periodLoop (d # rest)) = periodPoint (addDatum zeroSums d) d # fst (periodLoop rest)"
    by (simp add: periodStep_fst_append [of "[periodPoint (addDatum zeroSums d) d]"] periodLoop_def)
  then show ?thesis
    using assms by (simp add: step s chartDataPeriod_def periodPoint_def)
qed

theorem periodic_height_zero_is_boundary_witness:
  "height \<lparr>height = 0, sapling = 10, sapling_filter = 2, orchard = 0, orchard_filter = 0\<rparr> = 0
   \<and> periodStep ([], zeroSums)
         \<lparr>height = 0, sapling = 10, sapling_filter = 2, orchard = 0, orchard_filter = 0\<rparr> =
       ([\<lparr>p_height = 0, p_sapling = 10, p_sapling_filter = 8, p_orchard = None,
          p_orchard_filter = None\<rparr>], zeroSums)
   \<and> chartDataPeriod False
         [\<lparr>height = 0, sapling = 10, sapling_filter = 2, orchard = 0, orchard_filter = 0\<rparr>,
          \<lparr>height = 8064, sapling = 10, sapling_filter = 2, orchard = 0, orchard_filter = 0\<rparr>] =
       [\<lparr>p_height = 0, p_sapling = 10, p_sapling_filter = 8, p_orchard = None,
         p_orchard_filter = None\<rparr>]"
proof -
  let ?d = "\<lparr>height = 0, sapling = 10, sapling_filter = 2, orchard = 0, orchard_filter = 0\<rparr>"
  let ?e = "\<lparr>height = 8064, sapling = 10, sapling_filter = 2, orchard = 0, orchard_filter = 0\<rparr>"
  have h: "height ?d = 0" by simp
  have r: "chartDataPeriod False [?e] = []"
    by (simp add: chartDataPeriod_def periodLoop_def periodStep_def js_rem_def MONTH_PERIOD_def)
  from periodic_height_zero_is_boundary [OF h, of "[?e]"] show ?thesis
    by (simp add: r periodPoint_def)
qed

text \<open>
  Claim C9. Samples after the last boundary height reach no emitted point: appending
  samples \<open>tail\<close> none of which is at a boundary leaves the periodic output unchanged, and
  when the samples before them end at a boundary (or there are none) the accumulators hold
  the totals of \<open>tail\<close> at the end of the pass, where they are dropped.
\<close>

theorem periodic_trailing_samples_dropped:
  assumes "\<forall>e\<in>set tail. \<not> atBoundary e"
  shows "chartDataPeriod False (xs @ tail) = chartDataPeriod False xs
       \<and> (xs = [] \<or> atBoundary (last xs) \<longrightarrow>
            snd (periodLoop (xs @ tail)) =
              \<lparr>saplingSum = totalOf sapling tail, saplingFilterSum = totalOf sapling_filter tail,
               orchardSum = totalOf orchard tail, orchardFilterSum = totalOf orchard_filter tail\<rparr>)"
proof -
  have "periodLoop (xs @ tail) = (fst (periodLoop xs), foldl addDatum (snd (periodLoop xs)) tail)"
    using assms by (simp add: periodLoop_append foldl_periodStep_inner)
  moreover have "foldl addDatum zeroSums tail =
      \<lparr>saplingSum = totalOf sapling tail, saplingFilterSum = totalOf sapling_filter tail,
       orchardSum = totalOf orchard tail, orchardFilterSum = totalOf orchard_filter tail\<rparr>"
    by (simp only: foldl_addDatum) (simp add: zeroSums_def)
  ultimately show ?thesis
    by (auto simp: chartDataPeriod_def periodLoop_reset)
qed

theorem periodic_trailing_samples_dropped_witness:
  "\<not> atBoundary \<lparr>height = 40000, sapling = 10, sapling_filter = 2, orchard = 7, orchard_filter = 3\<rparr>
   \<and> chartDataPeriod False
        ([\<lparr>height = 32256, sapling = 1, sapling_filter = 1, orchard = 0, orchard_filter = 0\<rparr>]
         @ [\<lparr>height = 40000, sapling = 10, sapling_filter = 2, orchard = 7, orchard_filter = 3\<rparr>])
     = [\<lparr>p_height = 32256, p_sapling = 1, p_sapling_filter = 0, p_orchard = None,
          p_orchard_filter = None\<rparr>]
   \<and> snd (periodLoop
        ([\<lparr>height = 32256, sapling = 1, sapling_filter = 1, orchard = 0, orchard_filter = 0\<rparr>]
         @ [\<lparr>height = 40000, sapling = 10, sapling_filter = 2, orchard = 7, orchard_filter = 3\<rparr>]))
     = \<lparr>saplingSum = 10, saplingFilterSum = 2, orchardSum = 7, orchardFilterSum = 3\<rparr>"
proof -
  let ?b = "\<lparr>height = 32256, sapling = 1, sapling_filter = 1, orchard = 0, orchard_filter = 0\<rparr>"
  let ?t = "\<lparr>height = 40000, sapling = 10, sapling_filter = 2, orchard = 7, orchard_filter = 3\<rparr>"
  have h: "\<forall>e\<in>set [?t]. \<not> atBoundary e"
    by (simp add: js_rem_def MONTH_PERIOD_def)
  have b: "atBoundary (last [?b])"
    by (simp add: js_rem_def MONTH_PERIOD_def)
  have r: "chartDataPeriod False [?b] =
      [\<lparr>p_height = 32256, p_sapling = 1, p_sapling_filter = 0, p_orchard = None,
        p_orchard_filter = None\<rparr>]"
    by (simp add: chartDataPeriod_def periodLoop_def periodStep_def periodPoint_def addDatum_def
          zeroSums_def js_rem_def MONTH_PERIOD_def)
  from periodic_trailing_samples_dropped [OF h, of "[?b]"] h b r show ?thesis
    by (simp add: totalOf_def)
qed

section \<open>Absent orchard values\<close>

text \<open>
  Claim C2 (amended). For samples with non-negative deltas, each of the two orchard fields
  of an emitted point is absent exactly when its own accumulated value is zero: in
  cumulative mode the point of the sample \<open>d\<close> after the samples \<open>pre\<close> is the running
  point, and its orchard field is absent exactly when the orchard total of \<open>pre @ [d]\<close> is
  zero, likewise its filtered orchard field and the filtered orchard total; in periodic
  mode the same holds of the point of a bucket and the two totals of the bucket. In
  particular the filtered orchard field of a bucket is absent exactly when the bucket's
  filtered orchard total is zero, whatever its orchard total.
\<close>

theorem absent_iff_own_total_zero:
  assumes "nonnegDeltas xs"
  shows "(\<forall>j < length (chartDataPeriod True xs). \<exists>pre d rest.
            xs = pre @ d # rest
          \<and> chartDataPeriod True xs ! j = runningPoint pre d
          \<and> (p_orchard (chartDataPeriod True xs ! j) = None \<longleftrightarrow> totalOf orchard (pre @ [d]) = 0)
          \<and> (p_orchard_filter (chartDataPeriod True xs ! j) = None
               \<longleftrightarrow> totalOf orchard_filter (pre @ [d]) = 0))
       \<and> (\<forall>j < length (chartDataPeriod False xs). \<exists>pre seg d rest.
            xs = pre @ seg @ d # rest
          \<and> (pre = [] \<or> atBoundary (last pre))
          \<and> (\<forall>e\<in>set seg. \<not> atBoundary e) \<and> atBoundary d
          \<and> length (chartDataPeriod False pre) = j
          \<and> (p_orchard (chartDataPeriod False xs ! j) = None \<longleftrightarrow> totalOf orchard (seg @ [d]) = 0)
          \<and> (p_orchard_filter (chartDataPeriod False xs ! j) = None
               \<longleftrightarrow> totalOf orchard_filter (seg @ [d]) = 0))"
proof (intro conjI allI impI)
  fix j
  assume "j < length (chartDataPeriod True xs)"
  from cumulative_nth [OF this] obtain pre d rest where
    h: "xs = pre @ d # rest" "chartDataPeriod True xs ! j = runningPoint pre d"
    by blast
  from assms h(1) have "nonnegDeltas (pre @ [d])"
    by (simp add: nonnegDeltas_append nonnegDeltas_Cons nonnegDeltas_Nil)
  from running_absent [OF this] h show "\<exists>pre d rest.
            xs = pre @ d # rest
          \<and> chartDataPeriod True xs ! j = runningPoint pre d
          \<and> (p_orchard (chartDataPeriod True xs ! j) = None \<longleftrightarrow> totalOf orchard (pre @ [d]) = 0)
          \<and> (p_orchard_filter (chartDataPeriod True xs ! j) = None
               \<longleftrightarrow> totalOf orchard_filter (pre @ [d]) = 0)"
    by metis
next
  fix j
  assume "j < length (chartDataPeriod False xs)"
  from periodic_nth [OF this] obtain pre seg d rest where
    h: "xs = pre @ seg @ d # rest" "pre = [] \<or> atBoundary (last pre)"
       "\<forall>e\<in>set seg. \<not> atBoundary e" "atBoundary d"
       "length (chartDataPeriod False pre) = j"
       "chartDataPeriod False xs ! j = bucketPoint seg d"
    by blast
  from assms h(1) have "nonnegDeltas (seg @ [d])"
    by (simp add: nonnegDeltas_append nonnegDeltas_Cons nonnegDeltas_Nil)
  from bucket_absent [OF this] h show "\<exists>pre seg d rest.
            xs = pre @ seg @ d # rest
          \<and> (pre = [] \<or> atBoundary (last pre))
          \<and> (\<forall>e\<in>set seg. \<not> atBoundary e) \<and> atBoundary d
          \<and> length (chartDataPeriod False pre) = j
          \<and> (p_orchard (chartDataPeriod False xs ! j) = None \<longleftrightarrow> totalOf orchard (seg @ [d]) = 0)
          \<and> (p_orchard_filter (chartDataPeriod False xs ! j) = None
               \<longleftrightarrow> totalOf orchard_filter (seg @ [d]) = 0)"
    by metis
qed

theorem absent_iff_own_total_zero_witness:
  "nonnegDeltas sampleRun
   \<and> (\<exists>pre d rest. sampleRun
          = pre @ d # rest
        \<and> \<lparr>p_height = 64512, p_sapling = 16, p_sapling_filter = 4, p_orchard = Some 8,
            p_orchard_filter = Some 4\<rparr> = runningPoint pre d
        \<and> totalOf orchard (pre @ [d]) \<noteq> 0 \<and> totalOf orchard_filter (pre @ [d]) \<noteq> 0)
   \<and> (\<exists>pre seg d rest. sampleRun
          = pre @ seg @ d # rest
        \<and> length (chartDataPeriod False pre) = 0
        \<and> totalOf orchard (seg @ [d]) = 0 \<and> totalOf orchard_filter (seg @ [d]) = 0)"
proof -
  let ?xs = sampleRun
  have h: "nonnegDeltas ?xs"
    by (simp add: sampleRun_def nonnegDeltas_def)
  note t = absent_iff_own_total_zero [OF h]
  have "(1::nat) < length (chartDataPeriod True ?xs)"
    by (simp add: cumulative_example)
  with t have "\<exists>pre d rest. ?xs = pre @ d # rest
      \<and> chartDataPeriod True ?xs ! 1 = runningPoint pre d
      \<and> (p_orchard (chartDataPeriod True ?xs ! 1) = None \<longleftrightarrow> totalOf orchard (pre @ [d]) = 0)
      \<and> (p_orchard_filter (chartDataPeriod True ?xs ! 1) = None
           \<longleftrightarrow> totalOf orchard_filter (pre @ [d]) = 0)"
    by blast
  then have a: "\<exists>pre d rest. ?xs = pre @ d # rest
        \<and> \<lparr>p_height = 64512, p_sapling = 16, p_sapling_filter = 4, p_orchard = Some 8,
            p_orchard_filter = Some 4\<rparr> = runningPoint pre d
        \<and> totalOf orchard (pre @ [d]) \<noteq> 0 \<and> totalOf orchard_filter (pre @ [d]) \<noteq> 0"
    by (simp add: cumulative_example)
  have "(0::nat) < length (chartDataPeriod False ?xs)"
    by (simp add: periodic_example)
  with t have "\<exists>pre seg d rest. ?xs = pre @ seg @ d # rest
          \<and> (pre = [] \<or> atBoundary (last pre))
          \<and> (\<forall>e\<in>set seg. \<not> atBoundary e) \<and> atBoundary d
          \<and> length (chartDataPeriod False pre) = 0
          \<and> (p_orchard (chartDataPeriod False ?xs ! 0) = None \<longleftrightarrow> totalOf orchard (seg @ [d]) = 0)
          \<and> (p_orchard_filter (chartDataPeriod False ?xs ! 0) = None
               \<longleftrightarrow> totalOf orchard_filter (seg @ [d]) = 0)"
    by blast
  then have b: "\<exists>pre seg d rest. ?xs = pre @ seg @ d # rest
        \<and> length (chartDataPeriod False pre) = 0
        \<and> totalOf orchard (seg @ [d]) = 0 \<and> totalOf orchard_filter (seg @ [d]) = 0"
    by (simp add: periodic_example) blast
  from h a b show ?thesis by blast
qed

text \<open>
  The claim as first stated fails in its last part: a bucket with one sample of orchard
  delta \<open>5\<close> and filtered orchard delta \<open>0\<close> has orchard total \<open>5\<close>, and its filtered
  orchard field is absent.
\<close>

theorem orchard_filter_absent_counterexample:
  "nonnegDeltas [\<lparr>height = 32256, sapling = 10, sapling_filter = 2, orchard = 5, orchard_filter = 0\<rparr>]
   \<and> chartDataPeriod False
         [\<lparr>height = 32256, sapling = 10, sapling_filter = 2, orchard = 5, orchard_filter = 0\<rparr>]
       = [\<lparr>p_height = 32256, p_sapling = 10, p_sapling_filter = 8, p_orchard = Some 5,
           p_orchard_filter = None\<rparr>]
   \<and> totalOf orchard
         [\<lparr>height = 32256, sapling = 10, sapling_filter = 2, orchard = 5, orchard_filter = 0\<rparr>] = 5"
  by (simp add: nonnegDeltas_def chartDataPeriod_def periodLoop_def periodStep_def periodPoint_def
        addDatum_def zeroSums_def js_rem_def MONTH_PERIOD_def totalOf_def)

section \<open>Cumulative mode\<close>

text \<open>
  Claim C4. In cumulative mode the output has one point for each sample whose height is
  a multiple of the weekly constant \<open>8064\<close>, in the order of the samples, and that point
  carries the running totals up to and including its sample; a sample of any other
  height gives no point. The heights of the output are the heights of the input that
  the constant divides.
\<close>

theorem cumulative_keeps_exact_multiples:
  "chartDataPeriod True xs =
     map (\<lambda>i. runningPoint (take i xs) (xs ! i))
       (filter (\<lambda>i. BLOCKS_PERIOD dvd height (xs ! i)) [0..<length xs])
   \<and> map p_height (chartDataPeriod True xs) = filter (\<lambda>h. BLOCKS_PERIOD dvd h) (map height xs)
   \<and> BLOCKS_PERIOD = 8064"
proof -
  have "map height xs = map (\<lambda>i. height (xs ! i)) [0..<length xs]"
    by (rule nth_equalityI) simp_all
  then have "filter (\<lambda>h. BLOCKS_PERIOD dvd h) (map height xs)
      = map (\<lambda>i. height (xs ! i)) (filter (\<lambda>i. BLOCKS_PERIOD dvd height (xs ! i)) [0..<length xs])"
    by (simp add: filter_map comp_def)
  then show ?thesis
    by (simp add: chartDataPeriod_cumulative runningPoint_height comp_def BLOCKS_PERIOD_def)
qed

text \<open>
  Claim C7. For samples with non-negative deltas the four running totals never decrease
  along the points emitted in cumulative mode, for every pool; an absent orchard value
  counts as the total zero.
\<close>

theorem cumulative_totals_nondecreasing:
  assumes "nonnegDeltas xs"
  shows "sorted (map p_sapling (chartDataShown pool True xs))
       \<and> sorted (map p_sapling_filter (chartDataShown pool True xs))
       \<and> sorted (map (\<lambda>p. orZero (p_orchard p)) (chartDataShown pool True xs))
       \<and> sorted (map (\<lambda>p. orZero (p_orchard_filter p)) (chartDataShown pool True xs))"
proof -
  from assms have nn: "\<And>d. d \<in> set xs \<Longrightarrow>
      0 \<le> sapling d \<and> 0 \<le> sapling_filter d \<and> 0 \<le> orchard d \<and> 0 \<le> orchard_filter d"
    by (simp add: nonnegDeltas_def list_all_iff)
  have "sorted (map p_sapling (chartDataSum xs))"
    unfolding chartDataSum_def
    using sorted_running [of p_sapling saplingSum xs zeroSums] nn
    by (simp add: sumPoint_def addDatum_def)
  moreover have "sorted (map p_sapling_filter (chartDataSum xs))"
    unfolding chartDataSum_def
    using sorted_running [of p_sapling_filter saplingFilterSum xs zeroSums] nn
    by (simp add: sumPoint_def addDatum_def)
  moreover have "sorted (map (\<lambda>p. orZero (p_orchard p)) (chartDataSum xs))"
    unfolding chartDataSum_def
    using sorted_running [of "\<lambda>p. orZero (p_orchard p)" "\<lambda>s. max 0 (orchardSum s)" xs zeroSums] nn
    by (simp add: sumPoint_def addDatum_def orZero_def max_def)
  moreover have "sorted (map (\<lambda>p. orZero (p_orchard_filter p)) (chartDataSum xs))"
    unfolding chartDataSum_def
    using sorted_running [of "\<lambda>p. orZero (p_orchard_filter p)" "\<lambda>s. max 0 (orchardFilterSum s)" xs zeroSums] nn
    by (simp add: sumPoint_def addDatum_def orZero_def max_def)
  ultimately show ?thesis
    by (simp add: sorted_shown)
qed

theorem cumulative_totals_nondecreasing_witness:
  "nonnegDeltas sampleRun
   \<and> map p_sapling (chartDataShown ''default'' True sampleRun)
       = [1, 16]
   \<and> sorted (map p_sapling (chartDataShown ''default'' True sampleRun))
   \<and> sorted (map (\<lambda>p. orZero (p_orchard p)) (chartDataShown ''default'' True sampleRun))"
proof -
  let ?xs = sampleRun
  have h: "nonnegDeltas ?xs"
    by (simp add: sampleRun_def nonnegDeltas_def)
  have e: "map p_sapling (chartDataShown ''default'' True ?xs) = [1, 16]"
    by (simp add: chartDataShown_def cumulative_example)
  from cumulative_totals_nondecreasing [OF h, of "''default''"] h e show ?thesis
    by blast
qed

section \<open>Pool selection\<close>

text \<open>
  Claim C6. When the pool is \<open>orchard\<close>, the points kept are the aggregated points whose
  height is not below the activation constant \<open>1687104\<close>, in their order, in cumulative
  and in periodic mode: exactly the points strictly below the constant are removed.
\<close>

theorem orchard_only_drops_points_before_activation:
  "chartDataShown ''orchard'' cumulative xs =
     filter (\<lambda>p. \<not> p_height p < ORCHARD_ACTIVATION) (chartDataPeriod cumulative xs)
   \<and> ORCHARD_ACTIVATION = 1687104"
  by (simp add: chartDataShown_def ORCHARD_ACTIVATION_def not_less)

text \<open>
  Claim C10. For a pool that is none of \<open>default\<close>, \<open>orchard\<close> and \<open>sapling\<close> the list of
  datasets is empty, whatever the samples, the mode and the filter flag, and the chart is
  created with no dataset.
\<close>

theorem unknown_pool_gives_no_series:
  assumes "pool \<noteq> ''default''" and "pool \<noteq> ''orchard''" and "pool \<noteq> ''sapling''"
  shows "chartSets pool filter_on (chartDataShown pool cumulative xs) = []
       \<and> map_option datasets (renderEffect False True xs pool cumulative filter_on) = Some []"
  using assms by (simp add: chartSets_def renderEffect_def Let_def)

theorem unknown_pool_gives_no_series_witness:
  "''shielded'' \<noteq> ''default'' \<and> ''shielded'' \<noteq> ''orchard'' \<and> ''shielded'' \<noteq> ''sapling''
   \<and> chartSets ''shielded'' True
        (chartDataShown ''shielded'' True
          [\<lparr>height = 0, sapling = 10, sapling_filter = 2, orchard = 4, orchard_filter = 1\<rparr>]) = []
   \<and> map_option datasets
        (renderEffect False True
          [\<lparr>height = 0, sapling = 10, sapling_filter = 2, orchard = 4, orchard_filter = 1\<rparr>]
          ''shielded'' True True) = Some []"
proof -
  have h: "''shielded'' \<noteq> ''default''" "''shielded'' \<noteq> ''orchard''" "''shielded'' \<noteq> ''sapling''"
    by simp_all
  from unknown_pool_gives_no_series [OF h] h show ?thesis
    by simp
qed

section \<open>Conservation between the two modes\<close>

text \<open>
  Claim C3 (amended). Take samples with non-negative integer deltas whose four totals are
  below \<open>2 ^ 53\<close>, so that every addition of the two passes is exact, and that are empty
  or end at a boundary height of the periodic pass. Then the sapling values of the buckets
  add up to the final running sapling total of cumulative mode, and so do the orchard
  values (absent read as zero) for orchard. The filtered values of the buckets are
  complements: the filtered amount accumulated in a bucket is its sapling value minus its
  filtered sapling value (for orchard: its orchard value minus its filtered orchard value
  when that is present, zero when it is absent), and these amounts add up to the final
  running filtered totals of cumulative mode. The filtered sapling values of the buckets
  themselves add up to the final sapling total minus the final filtered sapling total.
\<close>

theorem periodic_buckets_conserve_totals:
  assumes nn: "nonnegDeltas xs" and safe: "safeTotals xs"
    and closed: "xs = [] \<or> atBoundary (last xs)"
  shows "sum_list (map p_sapling (chartDataPeriod False xs))
           = lastTotal p_sapling (chartDataPeriod True xs)
       \<and> sum_list (map (\<lambda>p. orZero (p_orchard p)) (chartDataPeriod False xs))
           = lastTotal (\<lambda>p. orZero (p_orchard p)) (chartDataPeriod True xs)
       \<and> sum_list (map (\<lambda>p. p_sapling p - p_sapling_filter p) (chartDataPeriod False xs))
           = lastTotal p_sapling_filter (chartDataPeriod True xs)
       \<and> sum_list (map (\<lambda>p. case p_orchard_filter p of None \<Rightarrow> 0 | Some c \<Rightarrow> orZero (p_orchard p) - c)
             (chartDataPeriod False xs))
           = lastTotal (\<lambda>p. orZero (p_orchard_filter p)) (chartDataPeriod True xs)
       \<and> sum_list (map p_sapling_filter (chartDataPeriod False xs))
           = lastTotal p_sapling (chartDataPeriod True xs)
             - lastTotal p_sapling_filter (chartDataPeriod True xs)"
proof -
  have "sum_list (map p_sapling_filter (chartDataPeriod False xs))
      = sum_list (map p_sapling (chartDataPeriod False xs))
        - sum_list (map (\<lambda>p. p_sapling p - p_sapling_filter p) (chartDataPeriod False xs))"
    by (rule sum_list_complement)
  then show ?thesis
    by (simp add: periodic_sums [OF nn closed] cumulative_final [OF nn closed])
qed

theorem periodic_buckets_conserve_totals_witness:
  "nonnegDeltas sampleRun
   \<and> safeTotals sampleRun
   \<and> atBoundary (last sampleRun)
   \<and> sum_list (map p_sapling (chartDataPeriod False sampleRun)) = 16
   \<and> lastTotal p_sapling (chartDataPeriod True sampleRun) = 16
   \<and> sum_list (map p_sapling_filter (chartDataPeriod False sampleRun)) = 12
   \<and> lastTotal p_sapling_filter (chartDataPeriod True sampleRun) = 4"
proof -
  let ?xs = sampleRun
  have h: "nonnegDeltas ?xs"
    by (simp add: sampleRun_def nonnegDeltas_def)
  have sf: "safeTotals ?xs"
    by (simp add: sampleRun_def safeTotals_def totalOf_def)
  have b: "atBoundary (last ?xs)"
    by (simp add: sampleRun_def js_rem_def MONTH_PERIOD_def)
  then have c: "?xs = [] \<or> atBoundary (last ?xs)"
    by (rule disjI2)
  have e: "sum_list (map p_sapling (chartDataPeriod False ?xs)) = 16"
          "sum_list (map p_sapling_filter (chartDataPeriod False ?xs)) = 12"
    by (simp_all add: periodic_example)
  from periodic_buckets_conserve_totals [OF h sf c] h sf b e show ?thesis
    by simp
qed

text \<open>
  The claim as first stated, read on the emitted values, fails for the filtered series: one
  bucket with sapling delta \<open>10\<close> and filtered sapling delta \<open>2\<close> emits the filtered value
  \<open>8\<close>, and the final running filtered total of cumulative mode is \<open>2\<close>.
\<close>

theorem filtered_buckets_are_complements_counterexample:
  "nonnegDeltas [\<lparr>height = 32256, sapling = 10, sapling_filter = 2, orchard = 0, orchard_filter = 0\<rparr>]
   \<and> safeTotals [\<lparr>height = 32256, sapling = 10, sapling_filter = 2, orchard = 0, orchard_filter = 0\<rparr>]
   \<and> atBoundary \<lparr>height = 32256, sapling = 10, sapling_filter = 2, orchard = 0, orchard_filter = 0\<rparr>
   \<and> sum_list (map p_sapling_filter (chartDataPeriod False
        [\<lparr>height = 32256, sapling = 10, sapling_filter = 2, orchard = 0, orchard_filter = 0\<rparr>])) = 8
   \<and> lastTotal p_sapling_filter (chartDataPeriod True
        [\<lparr>height = 32256, sapling = 10, sapling_filter = 2, orchard = 0, orchard_filter = 0\<rparr>]) = 2"
  by (simp add: nonnegDeltas_def safeTotals_def totalOf_def chartDataPeriod_def periodLoop_def periodStep_def periodPoint_def
        chartDataSum_def sumPoint_def lastTotal_def
        addDatum_def zeroSums_def js_rem_def MONTH_PERIOD_def BLOCKS_PERIOD_def Let_def)

section \<open>Loading\<close>

text \<open>
  Claim C5 (amended). The load fails exactly when the request is rejected, the response is
  not ok, or the body is not well-formed JSON; a component with no earlier error then shows
  the error view, and shows it in no other case. The body is not compared with the shape of
  the samples: on an ok response with a well-formed body the load yields the parsed value
  as it is, the component shows the canvas and holds that value, which is the whole
  sequence of samples when the body has their shape.
\<close>

theorem load_fails_iff_request_or_json_fails:
  assumes "error st = None"
  shows "((\<exists>e. fetchTransactionData fetched = Inl e) \<longleftrightarrow>
            (fetched = None \<or> (\<exists>r. fetched = Some r \<and> (\<not> ok r \<or> body r = None))))
       \<and> ((\<exists>e. view (loadEffect fetched st) = ErrorView e) \<longleftrightarrow>
            (\<exists>e. fetchTransactionData fetched = Inl e))
       \<and> (\<forall>r j. fetched = Some r \<and> ok r \<and> body r = Some j \<longrightarrow>
             fetchTransactionData fetched = Inr j
           \<and> view (loadEffect fetched st) = CanvasView
           \<and> chartData (loadEffect fetched st) = j)"
proof (intro conjI allI impI)
  show "(\<exists>e. fetchTransactionData fetched = Inl e) \<longleftrightarrow>
            (fetched = None \<or> (\<exists>r. fetched = Some r \<and> (\<not> ok r \<or> body r = None)))"
    by (rule fetch_fails_iff)
next
  show "(\<exists>e. view (loadEffect fetched st) = ErrorView e) \<longleftrightarrow>
            (\<exists>e. fetchTransactionData fetched = Inl e)"
    using assms by (cases "fetchTransactionData fetched") (simp_all add: view_loadEffect)
next
  fix r j
  assume "fetched = Some r \<and> ok r \<and> body r = Some j"
  then have "fetchTransactionData fetched = Inr j"
    by (simp add: fetch_succeeds_iff)
  then show "fetchTransactionData fetched = Inr j"
    and "view (loadEffect fetched st) = CanvasView"
    and "chartData (loadEffect fetched st) = j"
    using assms by (simp_all add: view_loadEffect) (simp add: loadEffect_def)
qed

theorem load_fails_iff_request_or_json_fails_witness:
  "error initialState = None
   \<and> fetchTransactionData (Some \<lparr>ok = False, status = 404, body = None\<rparr>) = Inl (HttpError 404)
   \<and> view (loadEffect (Some \<lparr>ok = False, status = 404, body = None\<rparr>) initialState)
       = ErrorView (HttpError 404)
   \<and> view (loadEffect (Some \<lparr>ok = True, status = 200, body = None\<rparr>) initialState)
       = ErrorView JsonSyntaxError
   \<and> asSamples (chartData (loadEffect (Some \<lparr>ok = True, status = 200, body = Some (JArr
        [JObj [(''height'', JNum 0), (''sapling'', JNum 10), (''sapling_filter'', JNum 2),
               (''orchard'', JNum 0), (''orchard_filter'', JNum 0)]])\<rparr>) initialState))
       = Some [\<lparr>height = 0, sapling = 10, sapling_filter = 2, orchard = 0, orchard_filter = 0\<rparr>]"
proof -
  let ?j = "JArr [JObj [(''height'', JNum 0), (''sapling'', JNum 10), (''sapling_filter'', JNum 2),
               (''orchard'', JNum 0), (''orchard_filter'', JNum 0)]]"
  let ?r = "\<lparr>ok = True, status = 200, body = Some ?j\<rparr>"
  have h: "error initialState = None"
    by (simp add: initialState_def)
  have "Some ?r = Some ?r \<and> ok ?r \<and> body ?r = Some ?j"
    by simp
  with load_fails_iff_request_or_json_fails [OF h, of "Some ?r"]
  have "chartData (loadEffect (Some ?r) initialState) = ?j"
    by blast
  then have a: "asSamples (chartData (loadEffect (Some ?r) initialState))
       = Some [\<lparr>height = 0, sapling = 10, sapling_filter = 2, orchard = 0, orchard_filter = 0\<rparr>]"
    by (simp add: numField_def)
  have b: "fetchTransactionData (Some \<lparr>ok = False, status = 404, body = None\<rparr>) = Inl (HttpError 404)"
    by (simp add: fetchTransactionData_def)
  have c: "view (loadEffect (Some \<lparr>ok = False, status = 404, body = None\<rparr>) initialState)
       = ErrorView (HttpError 404)"
    by (simp add: view_loadEffect b)
  have d: "view (loadEffect (Some \<lparr>ok = True, status = 200, body = None\<rparr>) initialState)
       = ErrorView JsonSyntaxError"
    by (simp add: view_loadEffect fetchTransactionData_def)
  from h a b c d show ?thesis by blast
qed

text \<open>
  The claim as first stated fails: an ok response whose body is well-formed JSON of another
  shape (an array with an object that has only a height) is loaded without error.
\<close>

theorem load_accepts_any_json_counterexample:
  "\<not> matchesShape (JArr [JObj [(''height'', JNum 0)]])
   \<and> fetchTransactionData
        (Some \<lparr>ok = True, status = 200, body = Some (JArr [JObj [(''height'', JNum 0)]])\<rparr>)
       = Inr (JArr [JObj [(''height'', JNum 0)]])
   \<and> view (loadEffect
        (Some \<lparr>ok = True, status = 200, body = Some (JArr [JObj [(''height'', JNum 0)]])\<rparr>)
        initialState) = CanvasView
   \<and> chartData (loadEffect
        (Some \<lparr>ok = True, status = 200, body = Some (JArr [JObj [(''height'', JNum 0)]])\<rparr>)
        initialState) = JArr [JObj [(''height'', JNum 0)]]"
  by (simp add: matchesShape_def numField_def fetchTransactionData_def view_loadEffect
        initialState_def)
     (simp add: loadEffect_def fetchTransactionData_def)

end
